theory Spec2Isabelle
  imports Complex_Main
begin

section \<open>JavaScript values\<close>

text \<open>
  The scene viewer of \<^verbatim>\<open>src/App.jsx\<close> computes with JavaScript numbers. Finite numbers are
  modelled as reals (the rounding of IEEE doubles is abstracted away, \<^verbatim>\<open>Math.PI\<close> is \<open>pi\<close>);
  the non-finite results a division can produce are kept apart in \<open>jsnum\<close>, so that a
  division by zero is never silently a real number.
\<close>

datatype jsnum = Num real | PosInfinity | NegInfinity | NaN

text \<open>\<^verbatim>\<open>a / b\<close> on finite operands, the divisor being \<open>+0\<close> when it is zero.\<close>

definition js_div :: "real \<Rightarrow> real \<Rightarrow> jsnum" where
  "js_div a b =
     (if b = 0 then (if 0 < a then PosInfinity else if a < 0 then NegInfinity else NaN)
      else Num (a / b))"

text \<open>\<^verbatim>\<open>a || b\<close> on numbers: \<open>0\<close> is the only falsy finite number.\<close>

definition js_or :: "real \<Rightarrow> real \<Rightarrow> real" where
  "js_or a b = (if a = 0 then b else a)"

datatype js_error = TypeError

section \<open>Pointer interaction\<close>

text \<open>
  A mouse event has no \<^verbatim>\<open>touches\<close> property (\<open>None\<close>) and carries its own client
  coordinates; a touch event carries a list of touches, which is truthy even when empty.
\<close>

record touch =
  t_clientX :: real
  t_clientY :: real

record event =
  touches :: "touch list option"
  clientX :: real
  clientY :: real

text \<open>
  \<^verbatim>\<open>const getXY = (e) => e.touches ? { x: e.touches[0].clientX, y: e.touches[0].clientY }
                                   : { x: e.clientX, y: e.clientY };\<close>
  Reading \<^verbatim>\<open>e.touches[0]\<close> of an empty list gives \<^verbatim>\<open>undefined\<close>, whose property access
  throws a TypeError.
\<close>

definition getXY :: "event \<Rightarrow> js_error + (real \<times> real)" where
  "getXY e =
     (case touches e of
        Some ts \<Rightarrow>
          (case ts of
             [] \<Rightarrow> Inl TypeError
           | t # _ \<Rightarrow> Inr (t_clientX t, t_clientY t))
      | None \<Rightarrow> Inr (clientX e, clientY e))"

text \<open>
  The closure variables \<^verbatim>\<open>isDragging\<close>, \<^verbatim>\<open>lastX\<close>, \<^verbatim>\<open>lastY\<close> and the rotation of
  \<^verbatim>\<open>watermelonGroup\<close> (\<open>rotation_x\<close> is the pitch, \<open>rotation_y\<close> the yaw).
\<close>

record viewer =
  isDragging :: bool
  lastX :: real
  lastY :: real
  rotation_x :: real
  rotation_y :: real

definition initial :: viewer where
  "initial = \<lparr>isDragging = False, lastX = 0, lastY = 0, rotation_x = 0, rotation_y = 0\<rparr>"

text \<open>
  A handler returns the exception it threw, if any, together with the state it leaves:
  \<^verbatim>\<open>onPointerDown\<close> has already set the flag when \<^verbatim>\<open>getXY\<close> throws.
\<close>

definition onPointerDown :: "event \<Rightarrow> viewer \<Rightarrow> js_error option \<times> viewer" where
  "onPointerDown e s =
     (let s1 = s\<lparr>isDragging := True\<rparr>
      in case getXY e of
           Inl err \<Rightarrow> (Some err, s1)
         | Inr (x, y) \<Rightarrow> (None, s1\<lparr>lastX := x, lastY := y\<rparr>))"

definition onPointerMove :: "event \<Rightarrow> viewer \<Rightarrow> js_error option \<times> viewer" where
  "onPointerMove e s =
     (if \<not> isDragging s then (None, s)
      else case getXY e of
             Inl err \<Rightarrow> (Some err, s)
           | Inr (x, y) \<Rightarrow>
               (let dx = x - lastX s;
                    dy = y - lastY s;
                    s1 = s\<lparr>rotation_y := rotation_y s + dx * 0.01\<rparr>;
                    s2 = s1\<lparr>rotation_x := rotation_x s1 + dy * 0.005\<rparr>;
                    s3 = s2\<lparr>rotation_x := max (- pi / 3) (min (pi / 3) (rotation_x s2))\<rparr>
                in (None, s3\<lparr>lastX := x, lastY := y\<rparr>)))"

definition onPointerUp :: "viewer \<Rightarrow> viewer" where
  "onPointerUp s = s\<lparr>isDragging := False\<rparr>"

text \<open>
  One call of \<^verbatim>\<open>animate\<close>: the idle rotation, then \<^verbatim>\<open>renderer.render\<close>, which draws the
  group with the rotation it has at that moment (the pair returned), then the request for
  the next frame, which is the next \<open>AnimationFrame\<close> event below.
\<close>

definition render :: "viewer \<Rightarrow> real \<times> real" where
  "render s = (rotation_x s, rotation_y s)"

definition animate :: "viewer \<Rightarrow> viewer \<times> (real \<times> real)" where
  "animate s =
     (let s1 = (if \<not> isDragging s then s\<lparr>rotation_y := rotation_y s + 0.005\<rparr> else s)
      in (s1, render s1))"

text \<open>
  The listeners registered on the canvas, and the frame callback. An exception thrown by
  a listener is reported by the browser and does not stop later events.
\<close>

datatype dom_event =
    Mousedown event
  | Mousemove event
  | Mouseup
  | Mouseleave
  | Touchstart event
  | Touchmove event
  | Touchend
  | Touchcancel
  | AnimationFrame

fun dispatch :: "dom_event \<Rightarrow> viewer \<Rightarrow> viewer" where
  "dispatch (Mousedown e) s = snd (onPointerDown e s)"
| "dispatch (Mousemove e) s = snd (onPointerMove e s)"
| "dispatch Mouseup s = onPointerUp s"
| "dispatch Mouseleave s = onPointerUp s"
| "dispatch (Touchstart e) s = snd (onPointerDown e s)"
| "dispatch (Touchmove e) s = snd (onPointerMove e s)"
| "dispatch Touchend s = onPointerUp s"
| "dispatch Touchcancel s = onPointerUp s"
| "dispatch AnimationFrame s = fst (animate s)"

fun run :: "viewer \<Rightarrow> dom_event list \<Rightarrow> viewer" where
  "run s [] = s"
| "run s (ev # evs) = run (dispatch ev s) evs"

definition mouse :: "real \<Rightarrow> real \<Rightarrow> event" where
  "mouse x y = \<lparr>touches = None, clientX = x, clientY = y\<rparr>"


text \<open>The clamp range of the pitch, as a predicate on the state.\<close>

definition pitch_ok :: "viewer \<Rightarrow> bool" where
  "pitch_ok s = (- pi / 3 \<le> rotation_x s \<and> rotation_x s \<le> pi / 3)"

section \<open>Resize handling\<close>

text \<open>
  The container's client size is a pair of non-negative integers. Of the camera and the
  renderer only the fields the handler writes are kept; \<^verbatim>\<open>updateProjectionMatrix\<close>
  recomputes a matrix derived from them and changes no field.
\<close>

record container =
  clientWidth :: nat
  clientHeight :: nat

record camera =
  fov :: real
  aspect :: jsnum
  near :: real
  far :: real

record renderer =
  out_width :: nat
  out_height :: nat

definition setSize :: "nat \<Rightarrow> nat \<Rightarrow> renderer \<Rightarrow> renderer" where
  "setSize w h r = r\<lparr>out_width := w, out_height := h\<rparr>"

definition onResize :: "container \<Rightarrow> camera \<times> renderer \<Rightarrow> camera \<times> renderer" where
  "onResize c cr =
     (let w = clientWidth c;
          h = clientHeight c;
          cam = (fst cr)\<lparr>aspect := js_div (real w) (real h)\<rparr>
      in (cam, setSize w h (snd cr)))"

section \<open>Striped texture\<close>

text \<open>
  A 2D canvas context is its current fill style and the rectangles painted so far, oldest
  first; \<^verbatim>\<open>fillRect\<close> paints one rectangle with the current style.
\<close>

record rect =
  r_x :: real
  r_y :: real
  r_w :: real
  r_h :: real
  r_style :: string

record canvas2d =
  cv_width :: nat
  cv_height :: nat
  fillStyle :: string
  painted :: "rect list"

definition fillRect :: "real \<Rightarrow> real \<Rightarrow> real \<Rightarrow> real \<Rightarrow> canvas2d \<Rightarrow> canvas2d" where
  "fillRect x y w h ctx =
     ctx\<lparr>painted := painted ctx @ [\<lparr>r_x = x, r_y = y, r_w = w, r_h = h, r_style = fillStyle ctx\<rparr>]\<rparr>"

definition texSize :: nat where
  "texSize = 512"

definition stripeCount :: nat where
  "stripeCount = 14"

text \<open>
  \<^verbatim>\<open>for (let i = 0; i < stripeCount; i++) { ctx.fillStyle = ...; ctx.fillRect(0, y1, texSize, y2 - y1); }\<close>
\<close>

function stripes :: "nat \<Rightarrow> canvas2d \<Rightarrow> canvas2d" where
  "stripes i ctx =
     (if i < stripeCount then
        (let ctx1 = ctx\<lparr>fillStyle := (if i mod 2 = 0 then ''#0b8a25'' else ''#033d0b'')\<rparr>;
             y1 = (real i * real texSize) / real stripeCount;
             y2 = (real (i + 1) * real texSize) / real stripeCount
         in stripes (i + 1) (fillRect 0 y1 (real texSize) (y2 - y1) ctx1))
      else ctx)"
  by pat_completeness auto
termination
  by (relation "measure (\<lambda>(i, ctx). stripeCount - i)") auto

declare stripes.simps [simp del]

datatype wrapping = RepeatWrapping | ClampToEdgeWrapping | MirroredRepeatWrapping

record texture =
  image :: canvas2d
  wrapS :: wrapping
  wrapT :: wrapping
  tex_repeat :: "real \<times> real"

text \<open>A new canvas of the given size, and a new texture on a canvas, with the defaults
  of the browser and of the rendering library.\<close>

definition createCanvas :: "nat \<Rightarrow> nat \<Rightarrow> canvas2d" where
  "createCanvas w h = \<lparr>cv_width = w, cv_height = h, fillStyle = ''#000000'', painted = []\<rparr>"

definition canvasTexture :: "canvas2d \<Rightarrow> texture" where
  "canvasTexture cv =
     \<lparr>image = cv, wrapS = ClampToEdgeWrapping, wrapT = ClampToEdgeWrapping, tex_repeat = (1, 1)\<rparr>"

definition stripedTexture :: texture where
  "stripedTexture =
     (let canvas = createCanvas texSize texSize;
          ctx = stripes 0 canvas;
          t0 = canvasTexture ctx;
          t1 = t0\<lparr>wrapS := RepeatWrapping\<rparr>;
          t2 = t1\<lparr>wrapT := RepeatWrapping\<rparr>
      in t2\<lparr>tex_repeat := (1, 1)\<rparr>)"

text \<open>
  What the canvas shows at a point: the style of the most recently painted rectangle that
  covers it, if any.
\<close>

definition covers :: "rect \<Rightarrow> real \<times> real \<Rightarrow> bool" where
  "covers r p =
     (r_x r \<le> fst p \<and> fst p < r_x r + r_w r \<and> r_y r \<le> snd p \<and> snd p < r_y r + r_h r)"

definition styleAt :: "canvas2d \<Rightarrow> real \<times> real \<Rightarrow> string option" where
  "styleAt ctx p =
     (case filter (\<lambda>r. covers r p) (rev (painted ctx)) of
        [] \<Rightarrow> None
      | r # _ \<Rightarrow> Some (r_style r))"

section \<open>Normalisation of the loaded object\<close>

text \<open>
  The loaded object is its geometry (the vertices of all its meshes, in the object's own
  frame), its position and its scale; the loader delivers it unrotated. A bounding box is
  empty or spans from a minimum to a maximum corner. \<open>setFromObject\<close> is the tight
  axis-aligned box around the geometry placed in the world; size and centre of the empty
  box are the zero vector.
\<close>

record vector3 =
  v_x :: real
  v_y :: real
  v_z :: real

datatype box3 = EmptyBox | Box vector3 vector3

record object3d =
  geometry :: "vector3 list"
  position :: vector3
  scale :: vector3

definition vmin :: "vector3 \<Rightarrow> vector3 \<Rightarrow> vector3" where
  "vmin a b = \<lparr>v_x = min (v_x a) (v_x b), v_y = min (v_y a) (v_y b), v_z = min (v_z a) (v_z b)\<rparr>"

definition vmax :: "vector3 \<Rightarrow> vector3 \<Rightarrow> vector3" where
  "vmax a b = \<lparr>v_x = max (v_x a) (v_x b), v_y = max (v_y a) (v_y b), v_z = max (v_z a) (v_z b)\<rparr>"

definition vsub :: "vector3 \<Rightarrow> vector3 \<Rightarrow> vector3" where
  "vsub a b = \<lparr>v_x = v_x a - v_x b, v_y = v_y a - v_y b, v_z = v_z a - v_z b\<rparr>"

definition setScalar :: "real \<Rightarrow> vector3" where
  "setScalar k = \<lparr>v_x = k, v_y = k, v_z = k\<rparr>"

fun expandByPoint :: "box3 \<Rightarrow> vector3 \<Rightarrow> box3" where
  "expandByPoint EmptyBox p = Box p p"
| "expandByPoint (Box lo hi) p = Box (vmin lo p) (vmax hi p)"

definition localToWorld :: "object3d \<Rightarrow> vector3 \<Rightarrow> vector3" where
  "localToWorld obj v =
     \<lparr>v_x = v_x (scale obj) * v_x v + v_x (position obj),
      v_y = v_y (scale obj) * v_y v + v_y (position obj),
      v_z = v_z (scale obj) * v_z v + v_z (position obj)\<rparr>"

definition setFromObject :: "object3d \<Rightarrow> box3" where
  "setFromObject obj = foldl expandByPoint EmptyBox (map (localToWorld obj) (geometry obj))"

fun getSize :: "box3 \<Rightarrow> vector3" where
  "getSize EmptyBox = \<lparr>v_x = 0, v_y = 0, v_z = 0\<rparr>"
| "getSize (Box lo hi) = vsub hi lo"

fun getCenter :: "box3 \<Rightarrow> vector3" where
  "getCenter EmptyBox = \<lparr>v_x = 0, v_y = 0, v_z = 0\<rparr>"
| "getCenter (Box lo hi) =
     \<lparr>v_x = (v_x lo + v_x hi) * 0.5, v_y = (v_y lo + v_y hi) * 0.5, v_z = (v_z lo + v_z hi) * 0.5\<rparr>"

text \<open>\<^verbatim>\<open>Math.max(size.x, size.y, size.z)\<close>\<close>

definition largest :: "vector3 \<Rightarrow> real" where
  "largest v = max (max (v_x v) (v_y v)) (v_z v)"

text \<open>
  \<^verbatim>\<open>const maxDim = Math.max(size.x, size.y, size.z) || 1; const scale = 3 / maxDim;\<close>
\<close>

definition maxDim :: "object3d \<Rightarrow> real" where
  "maxDim obj = js_or (largest (getSize (setFromObject obj))) 1"

definition scaleFactor :: "object3d \<Rightarrow> jsnum" where
  "scaleFactor obj = js_div 3 (maxDim obj)"

text \<open>
  The normalisation and centring steps of the load callback. The result is \<open>None\<close> when
  the scale factor is not a finite number, which this model of objects cannot hold.
\<close>

definition normalisation :: "object3d \<Rightarrow> object3d option" where
  "normalisation obj =
     (case scaleFactor obj of
        Num k \<Rightarrow>
          (let obj1 = obj\<lparr>scale := setScalar k\<rparr>;
               box = setFromObject obj1;
               center = getCenter box;
               obj2 = obj1\<lparr>position := vsub (position obj1) center\<rparr>;
               obj3 = obj2\<lparr>position := (position obj2)\<lparr>v_y := - 0.5\<rparr>\<rparr>
           in Some obj3)
      | _ \<Rightarrow> None)"

text \<open>The success callback: the material and the shadow flags it first sets on every mesh
  leave the geometry as it is; then it normalises, then \<^verbatim>\<open>watermelonGroup.add(obj)\<close>.\<close>

definition onLoad :: "object3d \<Rightarrow> object3d list \<Rightarrow> object3d list option" where
  "onLoad obj children = map_option (\<lambda>obj'. children @ [obj']) (normalisation obj)"

text \<open>The box around the untransformed geometry, and the image of a box under a
  componentwise scaling and translation.\<close>

definition localBox :: "vector3 list \<Rightarrow> box3" where
  "localBox vs = foldl expandByPoint EmptyBox vs"

definition affine :: "vector3 \<Rightarrow> vector3 \<Rightarrow> vector3 \<Rightarrow> vector3" where
  "affine k t v =
     \<lparr>v_x = v_x k * v_x v + v_x t, v_y = v_y k * v_y v + v_y t, v_z = v_z k * v_z v + v_z t\<rparr>"

fun affineBox :: "vector3 \<Rightarrow> vector3 \<Rightarrow> box3 \<Rightarrow> box3" where
  "affineBox k t EmptyBox = EmptyBox"
| "affineBox k t (Box lo hi) = Box (affine k t lo) (affine k t hi)"

fun wellFormed :: "box3 \<Rightarrow> bool" where
  "wellFormed EmptyBox = True"
| "wellFormed (Box lo hi) = (v_x lo \<le> v_x hi \<and> v_y lo \<le> v_y hi \<and> v_z lo \<le> v_z hi)"

text \<open>The vectors with no negative component: the scales under which the box of the
  placed geometry is the placed box of the geometry.\<close>

definition nonneg :: "vector3 \<Rightarrow> bool" where
  "nonneg k = (0 \<le> v_x k \<and> 0 \<le> v_y k \<and> 0 \<le> v_z k)"

text \<open>
  The band the specification describes for index \<open>i\<close>: full width, from row
  \<open>i * 512 / 14\<close> to row \<open>(i + 1) * 512 / 14\<close>, light green when \<open>i\<close> is even and dark
  green when it is odd. The loop above is compared with it.
\<close>

definition spec_band :: "nat \<Rightarrow> rect" where
  "spec_band i =
     \<lparr>r_x = 0, r_y = real i * 512 / 14, r_w = 512,
      r_h = real (i + 1) * 512 / 14 - real i * 512 / 14,
      r_style = (if even i then ''#0b8a25'' else ''#033d0b'')\<rparr>"

text \<open>The definitions a concrete normalisation is evaluated with.\<close>

lemmas eval_defs =
  normalisation_def scaleFactor_def maxDim_def js_or_def js_div_def setFromObject_def
  localToWorld_def largest_def vsub_def vmin_def vmax_def setScalar_def Let_def

section \<open>Properties of the pointer interaction\<close>

lemma pi_ge_three: "3 \<le> pi"
  using sin_x_le_x [of "pi / 6"] by (simp add: sin_30)

lemma clamp_bounds:
  "- pi / 3 \<le> max (- pi / 3) (min (pi / 3) v) \<and> max (- pi / 3) (min (pi / 3) v) \<le> pi / 3"
proof -
  have "- pi / 3 \<le> pi / 3" using pi_ge_zero by simp
  then show ?thesis by (simp add: max_def min_def)
qed

lemma clamp_id:
  "- pi / 3 \<le> v \<Longrightarrow> v \<le> pi / 3 \<Longrightarrow> max (- pi / 3) (min (pi / 3) v) = v"
  by (simp add: max_def min_def)

lemma onPointerDown_rotation:
  "rotation_x (snd (onPointerDown e s)) = rotation_x s"
  "rotation_y (snd (onPointerDown e s)) = rotation_y s"
  by (simp_all add: onPointerDown_def Let_def split: sum.splits prod.splits)

lemma onPointerMove_pitch_ok: "pitch_ok s \<Longrightarrow> pitch_ok (snd (onPointerMove e s))"
  using clamp_bounds
  by (simp add: onPointerMove_def pitch_ok_def Let_def split: sum.splits prod.splits)

lemma dispatch_pitch_ok: "pitch_ok s \<Longrightarrow> pitch_ok (dispatch ev s)"
proof (cases ev)
  case (Mousedown e)
  assume "pitch_ok s"
  then show ?thesis using Mousedown by (simp add: pitch_ok_def onPointerDown_rotation)
next
  case (Mousemove e)
  assume "pitch_ok s"
  then show ?thesis using Mousemove by (simp add: onPointerMove_pitch_ok)
next
  case (Touchstart e)
  assume "pitch_ok s"
  then show ?thesis using Touchstart by (simp add: pitch_ok_def onPointerDown_rotation)
next
  case (Touchmove e)
  assume "pitch_ok s"
  then show ?thesis using Touchmove by (simp add: onPointerMove_pitch_ok)
qed (simp_all add: pitch_ok_def onPointerUp_def animate_def Let_def)

lemma run_pitch_ok: "pitch_ok s \<Longrightarrow> pitch_ok (run s evs)"
  by (induction evs arbitrary: s) (simp_all add: dispatch_pitch_ok)

lemma initial_pitch_ok: "pitch_ok initial"
  by (simp add: pitch_ok_def initial_def)

text \<open>
  C1. Starting from the initial state, whose pitch is 0, the pitch after any sequence of
  pointer-down, pointer-move, pointer-up (mouse or touch, leave and cancel included) and
  frame events lies within \<open>[-pi/3, pi/3]\<close>.
\<close>

theorem pitch_always_clamped:
  "- pi / 3 \<le> rotation_x (run initial evs) \<and> rotation_x (run initial evs) \<le> pi / 3"
  using run_pitch_ok [OF initial_pitch_ok, of evs] by (simp add: pitch_ok_def)

lemma getXY_mouse: "getXY (mouse x y) = Inr (x, y)"
  by (simp add: getXY_def mouse_def)

lemma onPointerMove_dragging:
  "isDragging s \<Longrightarrow> getXY e = Inr (x, y) \<Longrightarrow>
   onPointerMove e s =
     (None, s\<lparr>rotation_y := rotation_y s + (x - lastX s) * 0.01,
               rotation_x := max (- pi / 3) (min (pi / 3) (rotation_x s + (y - lastY s) * 0.005)),
               lastX := x, lastY := y\<rparr>)"
  by (simp add: onPointerMove_def Let_def)

lemma onPointerMove_idle: "\<not> isDragging s \<Longrightarrow> onPointerMove e s = (None, s)"
  by (simp add: onPointerMove_def)

lemma onPointerDown_mouse:
  "onPointerDown (mouse x y) s = (None, s\<lparr>isDragging := True, lastX := x, lastY := y\<rparr>)"
  by (simp add: onPointerDown_def Let_def getXY_mouse)

text \<open>
  C2. A pointer-move handled while dragging, with coordinates \<open>(x, y)\<close>, adds
  \<open>(x - lastX) * 0.01\<close> to the yaw and \<open>(y - lastY) * 0.005\<close> to the pitch, clamps the pitch
  to \<open>[-pi/3, pi/3]\<close> and stores \<open>(x, y)\<close> as the last coordinates; handled while idle it
  changes nothing. In any state reached from the initial one, a drag from \<open>(100, 100)\<close> to
  \<open>(150, 100)\<close> adds exactly 0.5 to the yaw and leaves the pitch unchanged.
\<close>

theorem pointer_move_updates_rotation:
  "(isDragging s \<and> getXY e = Inr (x, y) \<longrightarrow>
      onPointerMove e s =
        (None, s\<lparr>rotation_y := rotation_y s + (x - lastX s) * 0.01,
                  rotation_x := max (- pi / 3) (min (pi / 3) (rotation_x s + (y - lastY s) * 0.005)),
                  lastX := x, lastY := y\<rparr>))
   \<and> (\<not> isDragging s \<longrightarrow> onPointerMove e s = (None, s))
   \<and> rotation_y (run (run initial evs) [Mousedown (mouse 100 100), Mousemove (mouse 150 100)])
         = rotation_y (run initial evs) + 0.5
   \<and> rotation_x (run (run initial evs) [Mousedown (mouse 100 100), Mousemove (mouse 150 100)])
         = rotation_x (run initial evs)"
proof -
  let ?s = "run initial evs"
  let ?d = "?s\<lparr>isDragging := True, lastX := 100, lastY := 100\<rparr>"
  have ok: "pitch_ok ?s" by (rule run_pitch_ok [OF initial_pitch_ok])
  have mv: "onPointerMove (mouse 150 100) ?d =
      (None, ?d\<lparr>rotation_y := rotation_y ?d + (150 - lastX ?d) * 0.01,
               rotation_x := max (- pi / 3) (min (pi / 3) (rotation_x ?d + (100 - lastY ?d) * 0.005)),
               lastX := 150, lastY := 100\<rparr>)"
    by (rule onPointerMove_dragging) (simp_all add: getXY_mouse)
  have cl: "max (- pi / 3) (min (pi / 3) (rotation_x ?s)) = rotation_x ?s"
    using ok by (simp add: pitch_ok_def clamp_id)
  have yaw: "rotation_y (run ?s [Mousedown (mouse 100 100), Mousemove (mouse 150 100)])
         = rotation_y ?s + 0.5"
    by (simp add: onPointerDown_mouse mv)
  have pitch: "rotation_x (run ?s [Mousedown (mouse 100 100), Mousemove (mouse 150 100)])
         = rotation_x ?s"
    using cl by (simp add: onPointerDown_mouse mv)
  show ?thesis
    using yaw pitch by (simp add: onPointerMove_dragging onPointerMove_idle)
qed


theorem pointer_move_updates_rotation_witness:
  "isDragging \<lparr>isDragging = True, lastX = 100, lastY = 100, rotation_x = 0, rotation_y = 0\<rparr>
   \<and> getXY (mouse 150 100) = Inr (150, 100)
   \<and> onPointerMove (mouse 150 100)
         \<lparr>isDragging = True, lastX = 100, lastY = 100, rotation_x = 0, rotation_y = 0\<rparr>
       = (None, \<lparr>isDragging = True, lastX = 150, lastY = 100, rotation_x = 0, rotation_y = 0.5\<rparr>)
   \<and> \<not> isDragging initial
   \<and> onPointerMove (mouse 150 100) initial = (None, initial)"
  using pointer_move_updates_rotation
          [of "\<lparr>isDragging = True, lastX = 100, lastY = 100, rotation_x = 0, rotation_y = 0\<rparr>"
              "mouse 150 100" 150 100 "[]"]
        pointer_move_updates_rotation [of initial "mouse 150 100" 150 100 "[]"]
  by (simp add: getXY_mouse initial_def clamp_id)

lemma drag_100_260:
  "rotation_x s = 0 \<Longrightarrow>
   rotation_x (run s [Mousedown (mouse 100 100), Mousemove (mouse 100 260)]) = 0.8"
proof -
  assume z: "rotation_x s = 0"
  let ?d = "s\<lparr>isDragging := True, lastX := 100, lastY := 100\<rparr>"
  have cl: "max (- (pi / 3)) (min (pi / 3) (4 / 5)) = (4 / 5 :: real)"
    using pi_ge_three by (simp add: max_def min_def)
  have mv: "onPointerMove (mouse 100 260) ?d =
      (None, ?d\<lparr>rotation_y := rotation_y ?d + (100 - lastX ?d) * 0.01,
               rotation_x := max (- pi / 3) (min (pi / 3) (rotation_x ?d + (260 - lastY ?d) * 0.005)),
               lastX := 100, lastY := 260\<rparr>)"
    by (rule onPointerMove_dragging) (simp_all add: getXY_mouse)
  show ?thesis using z by (simp add: onPointerDown_mouse mv cl)
qed

text \<open>
  C3, as stated, fails: after the drag from \<open>(100, 100)\<close> to \<open>(100, 260)\<close> from the initial
  state the pitch is not \<open>pi/3\<close>, and 0.8 does not exceed \<open>pi/3\<close>.
\<close>

theorem drag_100_260_clamped_counterexample:
  "rotation_x (run initial [Mousedown (mouse 100 100), Mousemove (mouse 100 260)]) \<noteq> pi / 3
   \<and> \<not> pi / 3 < 0.8"
proof -
  have "rotation_x (run initial [Mousedown (mouse 100 100), Mousemove (mouse 100 260)]) = 0.8"
    by (rule drag_100_260) (simp add: initial_def)
  then show ?thesis using pi_ge_three by simp
qed

text \<open>
  C3, amended. A drag from \<open>(100, 100)\<close> to \<open>(100, 260)\<close>, starting from pitch 0, adds
  \<open>160 * 0.005 = 0.8\<close> to the pitch; 0.8 lies below \<open>pi/3\<close>, so the clamp leaves it and the
  pitch is 0.8.
\<close>

theorem drag_100_260_not_clamped:
  "rotation_x s = 0 \<Longrightarrow>
   rotation_x (run s [Mousedown (mouse 100 100), Mousemove (mouse 100 260)]) = 160 * 0.005
   \<and> (160 * 0.005 :: real) = 0.8 \<and> (0.8 :: real) < pi / 3"
  using drag_100_260 [of s] pi_ge_three by simp

theorem drag_100_260_not_clamped_witness:
  "rotation_x initial = 0
   \<and> rotation_x (run initial [Mousedown (mouse 100 100), Mousemove (mouse 100 260)]) = 0.8"
proof -
  have z: "rotation_x initial = 0" by (simp add: initial_def)
  show ?thesis using z drag_100_260_not_clamped [OF z] by simp
qed

text \<open>
  C5. A frame adds exactly 0.005 to the yaw if and only if the state is idle at that
  moment, and the increment precedes the draw (the pose drawn has it); while dragging the
  frame changes nothing; no frame changes the pitch.
\<close>

theorem idle_frame_rotation:
  "((rotation_y (fst (animate s)) = rotation_y s + 0.005) = (\<not> isDragging s))
   \<and> (\<not> isDragging s \<longrightarrow> fst (animate s) = s\<lparr>rotation_y := rotation_y s + 0.005\<rparr>)
   \<and> (isDragging s \<longrightarrow> fst (animate s) = s)
   \<and> rotation_x (fst (animate s)) = rotation_x s
   \<and> snd (animate s)
       = (rotation_x s, if isDragging s then rotation_y s else rotation_y s + 0.005)"
  by (simp add: animate_def render_def Let_def)

theorem idle_frame_rotation_witness:
  "\<not> isDragging initial
   \<and> fst (animate initial)
       = \<lparr>isDragging = False, lastX = 0, lastY = 0, rotation_x = 0, rotation_y = 0.005\<rparr>
   \<and> isDragging \<lparr>isDragging = True, lastX = 3, lastY = 4, rotation_x = 0.5, rotation_y = 2\<rparr>
   \<and> fst (animate \<lparr>isDragging = True, lastX = 3, lastY = 4, rotation_x = 0.5, rotation_y = 2\<rparr>)
       = \<lparr>isDragging = True, lastX = 3, lastY = 4, rotation_x = 0.5, rotation_y = 2\<rparr>"
  using idle_frame_rotation [of initial]
        idle_frame_rotation
          [of "\<lparr>isDragging = True, lastX = 3, lastY = 4, rotation_x = 0.5, rotation_y = 2\<rparr>"]
  by (simp add: initial_def)

text \<open>
  C6. Pointer-up, pointer-leave, touch-end and touch-cancel all leave the drag state idle,
  whatever the state before, its stored last coordinates included.
\<close>

theorem pointer_up_forces_idle:
  "isDragging (onPointerUp s) = False
   \<and> isDragging (dispatch Mouseup s) = False
   \<and> isDragging (dispatch Mouseleave s) = False
   \<and> isDragging (dispatch Touchend s) = False
   \<and> isDragging (dispatch Touchcancel s) = False"
  by (simp add: onPointerUp_def)

text \<open>
  C10. The coordinate extraction returns the first touch's client coordinates when the
  event carries a touches list, and the event's own client coordinates otherwise. It
  returns coordinates exactly when the touches list is not an empty one: on an empty list
  it reads a missing element and throws, in pointer-down after the dragging flag is set,
  in pointer-move (while dragging) before anything is changed.
\<close>

theorem getXY_extraction:
  "(touches e = Some (t # ts) \<longrightarrow> getXY e = Inr (t_clientX t, t_clientY t))
   \<and> (touches e = None \<longrightarrow> getXY e = Inr (clientX e, clientY e))
   \<and> (touches e = Some [] \<longrightarrow> getXY e = Inl TypeError)
   \<and> ((\<exists>p. getXY e = Inr p) = (touches e \<noteq> Some []))
   \<and> (touches e = Some [] \<longrightarrow> onPointerDown e s = (Some TypeError, s\<lparr>isDragging := True\<rparr>))
   \<and> (touches e = Some [] \<and> isDragging s \<longrightarrow> onPointerMove e s = (Some TypeError, s))"
  by (auto simp add: getXY_def onPointerDown_def onPointerMove_def Let_def
           split: option.splits list.splits)

theorem getXY_extraction_witness:
  "getXY \<lparr>touches = Some [\<lparr>t_clientX = 7, t_clientY = 9\<rparr>, \<lparr>t_clientX = 1, t_clientY = 2\<rparr>],
          clientX = 0, clientY = 0\<rparr> = Inr (7, 9)
   \<and> getXY \<lparr>touches = None, clientX = 5, clientY = 6\<rparr> = Inr (5, 6)
   \<and> getXY \<lparr>touches = Some [], clientX = 5, clientY = 6\<rparr> = Inl TypeError
   \<and> onPointerDown \<lparr>touches = Some [], clientX = 5, clientY = 6\<rparr> initial
       = (Some TypeError, \<lparr>isDragging = True, lastX = 0, lastY = 0, rotation_x = 0, rotation_y = 0\<rparr>)"
  using getXY_extraction
          [of "\<lparr>touches = Some [\<lparr>t_clientX = 7, t_clientY = 9\<rparr>, \<lparr>t_clientX = 1, t_clientY = 2\<rparr>],
                 clientX = 0, clientY = 0\<rparr>"
              "\<lparr>t_clientX = 7, t_clientY = 9\<rparr>" "[\<lparr>t_clientX = 1, t_clientY = 2\<rparr>]" initial]
        getXY_extraction [of "\<lparr>touches = None, clientX = 5, clientY = 6\<rparr>" undefined "[]" initial]
        getXY_extraction [of "\<lparr>touches = Some [], clientX = 5, clientY = 6\<rparr>" undefined "[]" initial]
  by (simp add: initial_def)

section \<open>Properties of the resize handler and of the texture\<close>

text \<open>
  C7. After the resize handler has run with the container's client size \<open>(w, h)\<close>, the
  renderer's output size is \<open>(w, h)\<close> and the camera's aspect is the JavaScript quotient
  \<open>w / h\<close>, which is the number \<open>w / h\<close> whenever \<open>h\<close> is not 0.
\<close>

theorem resize_matches_container:
  "out_width (snd (onResize c cr)) = clientWidth c
   \<and> out_height (snd (onResize c cr)) = clientHeight c
   \<and> aspect (fst (onResize c cr)) = js_div (real (clientWidth c)) (real (clientHeight c))
   \<and> (clientHeight c \<noteq> 0 \<longrightarrow>
        aspect (fst (onResize c cr)) = Num (real (clientWidth c) / real (clientHeight c)))"
  by (simp add: onResize_def setSize_def js_div_def Let_def)

theorem resize_matches_container_witness:
  "clientHeight \<lparr>clientWidth = 800, clientHeight = 600\<rparr> \<noteq> 0
   \<and> aspect (fst (onResize \<lparr>clientWidth = 800, clientHeight = 600\<rparr>
                 (\<lparr>fov = 45, aspect = Num 1, near = 0.1, far = 100\<rparr>,
                  \<lparr>out_width = 10, out_height = 10\<rparr>))) = Num (4 / 3)
   \<and> out_width (snd (onResize \<lparr>clientWidth = 800, clientHeight = 600\<rparr>
                 (\<lparr>fov = 45, aspect = Num 1, near = 0.1, far = 100\<rparr>,
                  \<lparr>out_width = 10, out_height = 10\<rparr>))) = 800"
proof -
  let ?c = "\<lparr>clientWidth = 800, clientHeight = 600\<rparr>"
  let ?cr = "(\<lparr>fov = 45, aspect = Num 1, near = 0.1, far = 100\<rparr>,
              \<lparr>out_width = 10, out_height = 10\<rparr>)"
  have h: "clientHeight ?c \<noteq> 0" by simp
  have a: "aspect (fst (onResize ?c ?cr)) = Num (real (clientWidth ?c) / real (clientHeight ?c))"
    using resize_matches_container [of ?c ?cr] h by blast
  have w: "out_width (snd (onResize ?c ?cr)) = clientWidth ?c"
    using resize_matches_container [of ?c ?cr] by blast
  show ?thesis using h a w by simp
qed

lemma stripes_unfold:
  "stripes i ctx =
     (if i < stripeCount then
        stripes (i + 1)
          (fillRect 0 ((real i * real texSize) / real stripeCount) (real texSize)
             ((real (i + 1) * real texSize) / real stripeCount
                - (real i * real texSize) / real stripeCount)
             (ctx\<lparr>fillStyle := (if i mod 2 = 0 then ''#0b8a25'' else ''#033d0b'')\<rparr>))
      else ctx)"
  by (subst stripes.simps) (simp add: Let_def)

lemma stripes_painted:
  "painted (stripes i ctx) =
     painted ctx @
     map (\<lambda>j. \<lparr>r_x = 0, r_y = real j * 512 / 14, r_w = 512,
               r_h = real (j + 1) * 512 / 14 - real j * 512 / 14,
               r_style = (if even j then ''#0b8a25'' else ''#033d0b'')\<rparr>)
         [i..<stripeCount]"
proof (induction i ctx rule: stripes.induct)
  case (1 i ctx)
  show ?case
  proof (cases "i < stripeCount")
    case True
    have step: "[i..<stripeCount] = i # [i + 1..<stripeCount]"
      using True by (simp add: upt_conv_Cons)
    show ?thesis
      apply (subst stripes_unfold)
      apply (simp only: True if_True)
      apply (subst "1.IH" [OF True refl refl refl])
      apply (subst step)
      apply (simp add: fillRect_def texSize_def stripeCount_def even_iff_mod_2_eq_zero)
      done
  next
    case False
    then show ?thesis by (subst stripes_unfold) simp
  qed
qed

lemma stripes_width: "cv_width (stripes i ctx) = cv_width ctx"
proof (induction i ctx rule: stripes.induct)
  case (1 i ctx)
  show ?case
  proof (cases "i < stripeCount")
    case True
    show ?thesis
      apply (subst stripes_unfold)
      apply (simp only: True if_True)
      apply (subst "1.IH" [OF True refl refl refl])
      apply (simp add: fillRect_def)
      done
  next
    case False
    then show ?thesis by (subst stripes_unfold) simp
  qed
qed

lemma stripes_height: "cv_height (stripes i ctx) = cv_height ctx"
proof (induction i ctx rule: stripes.induct)
  case (1 i ctx)
  show ?case
  proof (cases "i < stripeCount")
    case True
    show ?thesis
      apply (subst stripes_unfold)
      apply (simp only: True if_True)
      apply (subst "1.IH" [OF True refl refl refl])
      apply (simp add: fillRect_def)
      done
  next
    case False
    then show ?thesis by (subst stripes_unfold) simp
  qed
qed

lemma stripedTexture_image: "image stripedTexture = stripes 0 (createCanvas texSize texSize)"
  by (simp add: stripedTexture_def canvasTexture_def Let_def)

lemma stripedTexture_painted: "painted (image stripedTexture) = map spec_band [0..<14]"
proof -
  have "painted (image stripedTexture) = map spec_band [0..<stripeCount]"
    unfolding stripedTexture_image stripes_painted spec_band_def
    by (simp add: createCanvas_def)
  then show ?thesis by (simp add: stripeCount_def)
qed

lemma covers_band:
  "0 \<le> x \<Longrightarrow> x < 512 \<Longrightarrow> covers (spec_band i) (x, y) = (\<lfloor>y * 14 / 512\<rfloor> = int i)"
  by (simp add: covers_def spec_band_def floor_eq_iff field_simps)

lemma filter_eq_upt: "k < n \<Longrightarrow> filter (\<lambda>i. i = k) [0..<n] = [k]"
proof (induction n)
  case 0
  then show ?case by simp
next
  case (Suc n)
  show ?case
  proof (cases "k < n")
    case True
    then show ?thesis using Suc.IH by simp
  next
    case False
    then have kn: "k = n" using Suc.prems by simp
    have "filter (\<lambda>i. i = n) [0..<n] = []" by (simp add: filter_empty_conv)
    then show ?thesis using kn by simp
  qed
qed

lemma styleAt_bands:
  assumes "painted ctx = map spec_band [0..<14]"
    and "0 \<le> x" "x < 512" "0 \<le> y" "y < 512"
  shows "styleAt ctx (x, y) = Some (if even \<lfloor>y * 14 / 512\<rfloor> then ''#0b8a25'' else ''#033d0b'')"
proof -
  let ?f = "\<lfloor>y * 14 / 512\<rfloor>"
  let ?k = "nat ?f"
  have f0: "0 \<le> ?f" using assms(4) by simp
  have "y * 14 / 512 < 14" using assms(5) by simp
  then have f14: "?f < 14" by (simp add: floor_less_iff)
  have k14: "?k < 14" using f0 f14 by arith
  have cov: "filter (\<lambda>i. covers (spec_band i) (x, y)) [0..<14] = filter (\<lambda>i. i = ?k) [0..<14]"
    using f0 by (intro filter_cong refl) (auto simp add: covers_band [OF assms(2,3)])
  have "filter (\<lambda>r. covers r (x, y)) (rev (painted ctx))
      = rev (map spec_band (filter (\<lambda>i. covers (spec_band i) (x, y)) [0..<14]))"
    by (simp add: assms(1) rev_filter [symmetric] filter_map comp_def rev_map del: upt_rec_numeral upt.simps)
  also have "\<dots> = [spec_band ?k]"
    unfolding cov filter_eq_upt [OF k14] by simp
  finally have "styleAt ctx (x, y) = Some (r_style (spec_band ?k))"
    by (simp add: styleAt_def)
  moreover have "even ?k = even ?f" using f0 by (simp add: even_nat_iff)
  ultimately show ?thesis by (simp add: spec_band_def)
qed

text \<open>
  C8. The texture image is 512 by 512 and is painted with exactly 14 rectangles; the
  \<open>i\<close>-th one is full width, spans the rows from \<open>i * 512 / 14\<close> to \<open>(i + 1) * 512 / 14\<close>, and
  is light green \<^verbatim>\<open>#0b8a25\<close> when \<open>i\<close> is even and dark green \<^verbatim>\<open>#033d0b\<close> when it is odd.
  So every point of the image shows the colour of the band its row falls in. The
  texture repeats in both axes.
\<close>

theorem striped_texture_bands:
  "cv_width (image stripedTexture) = 512
   \<and> cv_height (image stripedTexture) = 512
   \<and> length (painted (image stripedTexture)) = 14
   \<and> (\<forall>i<14. painted (image stripedTexture) ! i =
         \<lparr>r_x = 0, r_y = real i * 512 / 14, r_w = 512,
          r_h = real (i + 1) * 512 / 14 - real i * 512 / 14,
          r_style = (if even i then ''#0b8a25'' else ''#033d0b'')\<rparr>)
   \<and> (\<forall>x y. 0 \<le> x \<and> x < 512 \<and> 0 \<le> y \<and> y < 512 \<longrightarrow>
         styleAt (image stripedTexture) (x, y)
           = Some (if even \<lfloor>y * 14 / 512\<rfloor> then ''#0b8a25'' else ''#033d0b''))
   \<and> wrapS stripedTexture = RepeatWrapping
   \<and> wrapT stripedTexture = RepeatWrapping"
proof -
  have w: "cv_width (image stripedTexture) = 512"
    by (simp add: stripedTexture_image stripes_width createCanvas_def texSize_def)
  have h: "cv_height (image stripedTexture) = 512"
    by (simp add: stripedTexture_image stripes_height createCanvas_def texSize_def)
  have l: "length (painted (image stripedTexture)) = 14"
    by (simp add: stripedTexture_painted del: upt_rec_numeral upt.simps)
  have b: "\<forall>i<14. painted (image stripedTexture) ! i =
         \<lparr>r_x = 0, r_y = real i * 512 / 14, r_w = 512,
          r_h = real (i + 1) * 512 / 14 - real i * 512 / 14,
          r_style = (if even i then ''#0b8a25'' else ''#033d0b'')\<rparr>"
    by (simp add: stripedTexture_painted spec_band_def del: upt_rec_numeral upt.simps)
  have p: "\<forall>x y. 0 \<le> x \<and> x < 512 \<and> 0 \<le> y \<and> y < 512 \<longrightarrow>
         styleAt (image stripedTexture) (x, y)
           = Some (if even \<lfloor>y * 14 / 512\<rfloor> then ''#0b8a25'' else ''#033d0b'')"
    using styleAt_bands [OF stripedTexture_painted] by blast
  have s: "wrapS stripedTexture = RepeatWrapping" "wrapT stripedTexture = RepeatWrapping"
    by (simp_all add: stripedTexture_def canvasTexture_def Let_def)
  show ?thesis using w h l b p s by blast
qed

theorem striped_texture_bands_witness:
  "(3::nat) < 14
   \<and> painted (image stripedTexture) ! 3 =
        \<lparr>r_x = 0, r_y = 768 / 7, r_w = 512, r_h = 256 / 7, r_style = ''#033d0b''\<rparr>
   \<and> (0::real) \<le> 10 \<and> (10::real) < 512 \<and> (0::real) \<le> 40 \<and> (40::real) < 512
   \<and> styleAt (image stripedTexture) (10, 40) = Some ''#033d0b''"
proof -
  have b: "painted (image stripedTexture) ! 3 =
         \<lparr>r_x = 0, r_y = real 3 * 512 / 14, r_w = 512,
          r_h = real (3 + 1) * 512 / 14 - real 3 * 512 / 14,
          r_style = (if even (3::nat) then ''#0b8a25'' else ''#033d0b'')\<rparr>"
    using striped_texture_bands by simp
  have p: "styleAt (image stripedTexture) (10, 40)
           = Some (if even \<lfloor>(40::real) * 14 / 512\<rfloor> then ''#0b8a25'' else ''#033d0b'')"
    using striped_texture_bands by simp
  have f: "\<lfloor>(40::real) * 14 / 512\<rfloor> = 1" by (simp add: floor_eq_iff)
  show ?thesis using b p f by simp
qed

section \<open>Properties of the normalisation\<close>

lemma min_affine: "0 \<le> (k::real) \<Longrightarrow> min (k * a + t) (k * b + t) = k * min a b + t"
proof (cases "a \<le> b")
  case True
  assume "0 \<le> k"
  then have "k * a \<le> k * b" using True by (rule mult_left_mono [rotated])
  then show ?thesis using True by (simp add: min_def)
next
  case False
  assume "0 \<le> k"
  then have "k * b \<le> k * a" using False by (intro mult_left_mono) simp_all
  then show ?thesis using False by (simp add: min_def)
qed

lemma max_affine: "0 \<le> (k::real) \<Longrightarrow> max (k * a + t) (k * b + t) = k * max a b + t"
proof (cases "a \<le> b")
  case True
  assume "0 \<le> k"
  then have "k * a \<le> k * b" using True by (rule mult_left_mono [rotated])
  then show ?thesis using True by (simp add: max_def)
next
  case False
  assume "0 \<le> k"
  then have "k * b \<le> k * a" using False by (intro mult_left_mono) simp_all
  then show ?thesis using False by (simp add: max_def)
qed

lemma affine_vmin: "nonneg k \<Longrightarrow> vmin (affine k t a) (affine k t b) = affine k t (vmin a b)"
  by (simp add: nonneg_def vmin_def affine_def min_affine)

lemma affine_vmax: "nonneg k \<Longrightarrow> vmax (affine k t a) (affine k t b) = affine k t (vmax a b)"
  by (simp add: nonneg_def vmax_def affine_def max_affine)

lemma expand_affine:
  "nonneg k \<Longrightarrow> expandByPoint (affineBox k t b) (affine k t p) = affineBox k t (expandByPoint b p)"
  by (cases b) (simp_all add: affine_vmin affine_vmax)

lemma foldl_affine:
  "nonneg k \<Longrightarrow>
   foldl expandByPoint (affineBox k t b) (map (affine k t) vs)
     = affineBox k t (foldl expandByPoint b vs)"
  by (induction vs arbitrary: b) (simp_all add: expand_affine)

lemma localToWorld_affine: "localToWorld obj = affine (scale obj) (position obj)"
  by (rule ext) (simp add: localToWorld_def affine_def)

lemma setFromObject_affine:
  "nonneg (scale obj) \<Longrightarrow>
   setFromObject obj = affineBox (scale obj) (position obj) (localBox (geometry obj))"
  using foldl_affine [of "scale obj" "position obj" EmptyBox "geometry obj"]
  by (simp add: setFromObject_def localBox_def localToWorld_affine)

lemma expand_wellFormed: "wellFormed b \<Longrightarrow> wellFormed (expandByPoint b p)"
  by (cases b) (auto simp add: vmin_def vmax_def)

lemma foldl_wellFormed: "wellFormed b \<Longrightarrow> wellFormed (foldl expandByPoint b vs)"
  by (induction vs arbitrary: b) (simp_all add: expand_wellFormed)

lemma localBox_wellFormed: "wellFormed (localBox vs)"
  by (simp add: localBox_def foldl_wellFormed)

lemma largest_nonneg_size: "wellFormed b \<Longrightarrow> 0 \<le> largest (getSize b)"
  by (cases b) (auto simp add: largest_def vsub_def)

lemma affineBox_id:
  "affineBox \<lparr>v_x = 1, v_y = 1, v_z = 1\<rparr> \<lparr>v_x = 0, v_y = 0, v_z = 0\<rparr> b = b"
  by (cases b) (simp_all add: affine_def)

lemma max_scale: "0 \<le> (k::real) \<Longrightarrow> max (k * a) (k * b) = k * max a b"
  using max_affine [of k a 0 b] by simp

lemma largest_size_affine:
  "0 \<le> k \<Longrightarrow> largest (getSize (affineBox (setScalar k) t b)) = k * largest (getSize b)"
  by (cases b)
     (simp_all add: largest_def vsub_def affine_def setScalar_def max_scale
                    right_diff_distrib [symmetric])

lemma center_affine:
  "getCenter (affineBox k t (Box lo hi)) = affine k t (getCenter (Box lo hi))"
  by (simp add: affine_def algebra_simps)

lemma largest_size_empty: "largest (getSize EmptyBox) = 0"
  by (simp add: largest_def)

lemma maxDim_nonzero: "maxDim obj \<noteq> 0"
  by (simp add: maxDim_def js_or_def)

lemma scaleFactor_finite: "scaleFactor obj = Num (3 / maxDim obj)"
  using maxDim_nonzero [of obj] by (simp add: scaleFactor_def js_div_def)

lemma normalisation_some:
  "normalisation obj =
     Some (obj\<lparr>scale := setScalar (3 / maxDim obj),
               position := (vsub (position obj)
                   (getCenter (setFromObject (obj\<lparr>scale := setScalar (3 / maxDim obj)\<rparr>))))
                   \<lparr>v_y := - 0.5\<rparr>\<rparr>)"
  by (simp add: normalisation_def scaleFactor_finite Let_def)

text \<open>
  C9. The divisor of the scale factor is never 0: it is the largest dimension of the
  bounding box, or 1 when that is 0. So the scale factor is always the finite number
  \<open>3 / maxDim\<close>, it is 3 for a degenerate object, and the normalisation always yields an
  object, scaled uniformly by that factor.
\<close>

theorem scale_factor_finite:
  "maxDim obj \<noteq> 0
   \<and> scaleFactor obj = Num (3 / maxDim obj)
   \<and> (largest (getSize (setFromObject obj)) = 0 \<longrightarrow> maxDim obj = 1 \<and> scaleFactor obj = Num 3)
   \<and> (largest (getSize (setFromObject obj)) \<noteq> 0 \<longrightarrow>
        maxDim obj = largest (getSize (setFromObject obj)))
   \<and> (\<exists>obj'. normalisation obj = Some obj' \<and> scale obj' = setScalar (3 / maxDim obj))"
proof -
  have a: "maxDim obj \<noteq> 0" by (rule maxDim_nonzero)
  have b: "scaleFactor obj = Num (3 / maxDim obj)" by (rule scaleFactor_finite)
  have c: "largest (getSize (setFromObject obj)) = 0 \<longrightarrow> maxDim obj = 1 \<and> scaleFactor obj = Num 3"
    by (simp add: scaleFactor_finite) (simp add: maxDim_def js_or_def)
  have d: "largest (getSize (setFromObject obj)) \<noteq> 0 \<longrightarrow>
        maxDim obj = largest (getSize (setFromObject obj))"
    by (simp add: maxDim_def js_or_def)
  have e: "\<exists>obj'. normalisation obj = Some obj' \<and> scale obj' = setScalar (3 / maxDim obj)"
    by (simp add: normalisation_some)
  show ?thesis using a b c d e by blast
qed

theorem scale_factor_finite_witness:
  "largest (getSize (setFromObject
      \<lparr>geometry = [\<lparr>v_x = 2, v_y = 5, v_z = 7\<rparr>],
       position = \<lparr>v_x = 0, v_y = 0, v_z = 0\<rparr>, scale = \<lparr>v_x = 1, v_y = 1, v_z = 1\<rparr>\<rparr>)) = 0
   \<and> scaleFactor
      \<lparr>geometry = [\<lparr>v_x = 2, v_y = 5, v_z = 7\<rparr>],
       position = \<lparr>v_x = 0, v_y = 0, v_z = 0\<rparr>, scale = \<lparr>v_x = 1, v_y = 1, v_z = 1\<rparr>\<rparr> = Num 3
   \<and> largest (getSize (setFromObject
      \<lparr>geometry = [\<lparr>v_x = 0, v_y = 0, v_z = 0\<rparr>, \<lparr>v_x = 6, v_y = 2, v_z = 1\<rparr>],
       position = \<lparr>v_x = 0, v_y = 0, v_z = 0\<rparr>, scale = \<lparr>v_x = 1, v_y = 1, v_z = 1\<rparr>\<rparr>)) \<noteq> 0
   \<and> maxDim
      \<lparr>geometry = [\<lparr>v_x = 0, v_y = 0, v_z = 0\<rparr>, \<lparr>v_x = 6, v_y = 2, v_z = 1\<rparr>],
       position = \<lparr>v_x = 0, v_y = 0, v_z = 0\<rparr>, scale = \<lparr>v_x = 1, v_y = 1, v_z = 1\<rparr>\<rparr> = 6"
proof -
  let ?p = "\<lparr>geometry = [\<lparr>v_x = 2, v_y = 5, v_z = 7\<rparr>],
       position = \<lparr>v_x = 0, v_y = 0, v_z = 0\<rparr>, scale = \<lparr>v_x = 1, v_y = 1, v_z = 1\<rparr>\<rparr>"
  let ?q = "\<lparr>geometry = [\<lparr>v_x = 0, v_y = 0, v_z = 0\<rparr>, \<lparr>v_x = 6, v_y = 2, v_z = 1\<rparr>],
       position = \<lparr>v_x = 0, v_y = 0, v_z = 0\<rparr>, scale = \<lparr>v_x = 1, v_y = 1, v_z = 1\<rparr>\<rparr>"
  have p0: "largest (getSize (setFromObject ?p)) = 0"
    by (simp add: setFromObject_def localToWorld_def largest_def vsub_def)
  have q6: "largest (getSize (setFromObject ?q)) = 6"
    by (simp add: setFromObject_def localToWorld_def largest_def vsub_def vmin_def vmax_def)
  have "scaleFactor ?p = Num 3" using scale_factor_finite [of ?p] p0 by blast
  moreover have "maxDim ?q = 6" using scale_factor_finite [of ?q] q6 by simp
  ultimately show ?thesis using p0 q6 by simp
qed

lemma normalised_box:
  assumes sc: "scale obj = \<lparr>v_x = 1, v_y = 1, v_z = 1\<rparr>"
    and po: "position obj = \<lparr>v_x = 0, v_y = 0, v_z = 0\<rparr>"
    and nz: "largest (getSize (setFromObject obj)) \<noteq> 0"
    and k: "k = 3 / largest (getSize (setFromObject obj))"
  shows "\<exists>lo hi t.
           setFromObject obj = Box lo hi
         \<and> 0 < k
         \<and> normalisation obj = Some (obj\<lparr>scale := setScalar k, position := t\<rparr>)
         \<and> t = \<lparr>v_x = - (k * v_x (getCenter (Box lo hi))), v_y = - 0.5,
                 v_z = - (k * v_z (getCenter (Box lo hi)))\<rparr>
         \<and> setFromObject (obj\<lparr>scale := setScalar k, position := t\<rparr>)
             = affineBox (setScalar k) t (Box lo hi)"
proof -
  let ?B = "localBox (geometry obj)"
  have "nonneg (scale obj)" by (simp add: sc nonneg_def)
  then have pre: "setFromObject obj = ?B"
    using setFromObject_affine [of obj] by (simp add: sc po affineBox_id)
  have wf: "wellFormed ?B" by (rule localBox_wellFormed)
  have pos: "0 < largest (getSize ?B)"
    using largest_nonneg_size [OF wf] nz pre by simp
  have md: "maxDim obj = largest (getSize ?B)"
    using nz pre by (simp add: maxDim_def js_or_def)
  have kpos: "0 < k" using pos k pre by simp
  have kmd: "3 / maxDim obj = k" using k md pre by simp
  obtain lo hi where box: "?B = Box lo hi"
    using nz pre by (cases ?B) (simp_all add: largest_def)
  let ?o1 = "obj\<lparr>scale := setScalar k\<rparr>"
  have nn: "nonneg (setScalar k)" using kpos by (simp add: nonneg_def setScalar_def)
  have b1: "setFromObject ?o1 = affineBox (setScalar k) (position obj) (Box lo hi)"
    using setFromObject_affine [of ?o1] nn box by simp
  have c1: "getCenter (setFromObject ?o1) = affine (setScalar k) (position obj) (getCenter (Box lo hi))"
    unfolding b1 by (rule center_affine)
  let ?t = "\<lparr>v_x = - (k * v_x (getCenter (Box lo hi))), v_y = - 0.5,
             v_z = - (k * v_z (getCenter (Box lo hi)))\<rparr>"
  have t: "(vsub (position obj) (getCenter (setFromObject ?o1)))\<lparr>v_y := - 0.5\<rparr> = ?t"
    unfolding c1 by (simp add: vsub_def affine_def setScalar_def po)
  have n: "normalisation obj = Some (obj\<lparr>scale := setScalar k, position := ?t\<rparr>)"
    unfolding normalisation_some kmd t by simp
  have b3: "setFromObject (obj\<lparr>scale := setScalar k, position := ?t\<rparr>)
             = affineBox (setScalar k) ?t (Box lo hi)"
    using setFromObject_affine [of "obj\<lparr>scale := setScalar k, position := ?t\<rparr>"] nn box by simp
  show ?thesis using pre box kpos n b3 by auto
qed

text \<open>
  C4, as stated, fails. For an object that is a single point the divisor falls back to 1
  and the largest dimension stays 0. For an object whose box spans from \<open>(0, 0, 0)\<close> to
  \<open>(3, 2, 1)\<close> the normalised box is centred at \<open>(0, 0.5, 0)\<close>, not at \<open>(0, -0.5, 0)\<close>: the
  callback subtracts the centre of the box and then overwrites the vertical component of
  the position it has just centred.
\<close>

theorem loaded_object_center_counterexample:
  "normalisation
      \<lparr>geometry = [\<lparr>v_x = 0, v_y = 0, v_z = 0\<rparr>, \<lparr>v_x = 3, v_y = 2, v_z = 1\<rparr>],
       position = \<lparr>v_x = 0, v_y = 0, v_z = 0\<rparr>, scale = \<lparr>v_x = 1, v_y = 1, v_z = 1\<rparr>\<rparr>
     = Some \<lparr>geometry = [\<lparr>v_x = 0, v_y = 0, v_z = 0\<rparr>, \<lparr>v_x = 3, v_y = 2, v_z = 1\<rparr>],
             position = \<lparr>v_x = - 1.5, v_y = - 0.5, v_z = - 0.5\<rparr>,
             scale = \<lparr>v_x = 1, v_y = 1, v_z = 1\<rparr>\<rparr>
   \<and> getCenter (setFromObject
         \<lparr>geometry = [\<lparr>v_x = 0, v_y = 0, v_z = 0\<rparr>, \<lparr>v_x = 3, v_y = 2, v_z = 1\<rparr>],
          position = \<lparr>v_x = - 1.5, v_y = - 0.5, v_z = - 0.5\<rparr>,
          scale = \<lparr>v_x = 1, v_y = 1, v_z = 1\<rparr>\<rparr>)
     = \<lparr>v_x = 0, v_y = 0.5, v_z = 0\<rparr>
   \<and> getCenter (setFromObject
         \<lparr>geometry = [\<lparr>v_x = 0, v_y = 0, v_z = 0\<rparr>, \<lparr>v_x = 3, v_y = 2, v_z = 1\<rparr>],
          position = \<lparr>v_x = - 1.5, v_y = - 0.5, v_z = - 0.5\<rparr>,
          scale = \<lparr>v_x = 1, v_y = 1, v_z = 1\<rparr>\<rparr>)
     \<noteq> \<lparr>v_x = 0, v_y = - 0.5, v_z = 0\<rparr>
   \<and> normalisation
      \<lparr>geometry = [\<lparr>v_x = 1, v_y = 1, v_z = 1\<rparr>],
       position = \<lparr>v_x = 0, v_y = 0, v_z = 0\<rparr>, scale = \<lparr>v_x = 1, v_y = 1, v_z = 1\<rparr>\<rparr>
     = Some \<lparr>geometry = [\<lparr>v_x = 1, v_y = 1, v_z = 1\<rparr>],
             position = \<lparr>v_x = - 3, v_y = - 0.5, v_z = - 3\<rparr>,
             scale = \<lparr>v_x = 3, v_y = 3, v_z = 3\<rparr>\<rparr>
   \<and> largest (getSize (setFromObject
         \<lparr>geometry = [\<lparr>v_x = 1, v_y = 1, v_z = 1\<rparr>],
          position = \<lparr>v_x = - 3, v_y = - 0.5, v_z = - 3\<rparr>,
          scale = \<lparr>v_x = 3, v_y = 3, v_z = 3\<rparr>\<rparr>)) \<noteq> 3"
  by (simp add: eval_defs)

text \<open>
  C4, amended. For a freshly loaded object (position zero, scale one) whose bounding box
  has a largest dimension other than 0, the load callback succeeds and attaches the
  object to the group; afterwards the largest dimension of its bounding box is 3 and the
  centre of the box has \<open>x = 0\<close> and \<open>z = 0\<close>. Nothing is stated about the height of the
  centre.
\<close>

theorem loaded_object_normalised:
  assumes "scale obj = \<lparr>v_x = 1, v_y = 1, v_z = 1\<rparr>"
    and "position obj = \<lparr>v_x = 0, v_y = 0, v_z = 0\<rparr>"
    and "largest (getSize (setFromObject obj)) \<noteq> 0"
  shows "\<exists>obj'. normalisation obj = Some obj'
           \<and> onLoad obj children = Some (children @ [obj'])
           \<and> largest (getSize (setFromObject obj')) = 3
           \<and> v_x (getCenter (setFromObject obj')) = 0
           \<and> v_z (getCenter (setFromObject obj')) = 0"
proof -
  define k where "k = 3 / largest (getSize (setFromObject obj))"
  obtain lo hi t where pre: "setFromObject obj = Box lo hi"
    and kpos: "0 < k"
    and n: "normalisation obj = Some (obj\<lparr>scale := setScalar k, position := t\<rparr>)"
    and t: "t = \<lparr>v_x = - (k * v_x (getCenter (Box lo hi))), v_y = - 0.5,
                 v_z = - (k * v_z (getCenter (Box lo hi)))\<rparr>"
    and post: "setFromObject (obj\<lparr>scale := setScalar k, position := t\<rparr>)
             = affineBox (setScalar k) t (Box lo hi)"
    using normalised_box [OF assms k_def] by blast
  let ?o = "obj\<lparr>scale := setScalar k, position := t\<rparr>"
  have l: "largest (getSize (setFromObject ?o)) = 3"
    unfolding post using largest_size_affine [of k t "Box lo hi"] kpos assms(3) pre
    by (simp add: k_def)
  have c: "getCenter (setFromObject ?o) = affine (setScalar k) t (getCenter (Box lo hi))"
    unfolding post by (rule center_affine)
  have cx: "v_x (getCenter (setFromObject ?o)) = 0"
    unfolding c by (simp add: affine_def setScalar_def t)
  have cz: "v_z (getCenter (setFromObject ?o)) = 0"
    unfolding c by (simp add: affine_def setScalar_def t)
  have ol: "onLoad obj children = Some (children @ [?o])"
    by (simp add: onLoad_def n)
  show ?thesis using n ol l cx cz by blast
qed

theorem loaded_object_normalised_witness:
  "scale \<lparr>geometry = [\<lparr>v_x = 0, v_y = - 1, v_z = 0\<rparr>, \<lparr>v_x = 6, v_y = 1, v_z = 2\<rparr>],
          position = \<lparr>v_x = 0, v_y = 0, v_z = 0\<rparr>, scale = \<lparr>v_x = 1, v_y = 1, v_z = 1\<rparr>\<rparr>
     = \<lparr>v_x = 1, v_y = 1, v_z = 1\<rparr>
   \<and> largest (getSize (setFromObject
         \<lparr>geometry = [\<lparr>v_x = 0, v_y = - 1, v_z = 0\<rparr>, \<lparr>v_x = 6, v_y = 1, v_z = 2\<rparr>],
          position = \<lparr>v_x = 0, v_y = 0, v_z = 0\<rparr>, scale = \<lparr>v_x = 1, v_y = 1, v_z = 1\<rparr>\<rparr>)) \<noteq> 0
   \<and> (\<exists>obj'. normalisation
         \<lparr>geometry = [\<lparr>v_x = 0, v_y = - 1, v_z = 0\<rparr>, \<lparr>v_x = 6, v_y = 1, v_z = 2\<rparr>],
          position = \<lparr>v_x = 0, v_y = 0, v_z = 0\<rparr>, scale = \<lparr>v_x = 1, v_y = 1, v_z = 1\<rparr>\<rparr>
           = Some obj'
         \<and> largest (getSize (setFromObject obj')) = 3
         \<and> v_x (getCenter (setFromObject obj')) = 0
         \<and> v_z (getCenter (setFromObject obj')) = 0)"
proof -
  let ?w = "\<lparr>geometry = [\<lparr>v_x = 0, v_y = - 1, v_z = 0\<rparr>, \<lparr>v_x = 6, v_y = 1, v_z = 2\<rparr>],
          position = \<lparr>v_x = 0, v_y = 0, v_z = 0\<rparr>, scale = \<lparr>v_x = 1, v_y = 1, v_z = 1\<rparr>\<rparr>"
  have sc: "scale ?w = \<lparr>v_x = 1, v_y = 1, v_z = 1\<rparr>" by simp
  have po: "position ?w = \<lparr>v_x = 0, v_y = 0, v_z = 0\<rparr>" by simp
  have nz: "largest (getSize (setFromObject ?w)) \<noteq> 0" by (simp add: eval_defs)
  show ?thesis
    using loaded_object_normalised [OF sc po nz, of "[]"] sc nz by blast
qed

end
